theory Spec2Isabelle
  imports Main "HOL-Library.AList"
begin

section \<open>Smart Library seat booking: the record store\<close>

text \<open>
  The program keeps its bookings in one CSV file, \<^verbatim>\<open>bookings.csv\<close>, with the columns
  \<^verbatim>\<open>seat_id, name, mobile, duration, entry_time, start_time, status\<close>. Every handler
  reads the whole file and, when it changes something, writes the whole file back.

  The model works on the rows the program itself writes: \<open>seat_id\<close> and \<open>duration\<close> are
  the integers whose decimal text is in the file, and \<open>start_time\<close> is the number of
  seconds since 0001-01-01 00:00:00 whose \<^verbatim>\<open>%Y-%m-%d %H:%M:%S\<close> text, as the program
  writes it, is in the file. Instants of the clock (\<^verbatim>\<open>datetime.now()\<close>) are integers
  counting microseconds from the same origin. The text fields and the status stay
  strings; a character is a code point below 256.
\<close>

subsection \<open>Errors\<close>

text \<open>\<open>CsvError\<close> is the \<^verbatim>\<open>_csv.Error\<close> of the reader.\<close>

datatype error = OSError | ValueError | OverflowError | CsvError

definition bind_res :: "error + 'a \<Rightarrow> ('a \<Rightarrow> error + 'b) \<Rightarrow> error + 'b" where
  "bind_res m f = (case m of Inl e \<Rightarrow> Inl e | Inr x \<Rightarrow> f x)"

subsection \<open>Rows and the file\<close>

record row =
  seat_id :: int
  name :: string
  mobile :: string
  duration :: int
  entry_time :: string
  start_time :: int
  status :: string

text \<open>
  \<open>csv = None\<close>: the file does not exist. \<open>csv = Some rs\<close>: the file exists and the
  rows \<open>rs\<close> are read from it, in file order (a file of no bytes reads as no rows).
\<close>

record store =
  csv :: "row list option"

definition records :: "store \<Rightarrow> row list" where
  "records st = (case csv st of None \<Rightarrow> [] | Some rs \<Rightarrow> rs)"

text \<open>
  What happens when a handler opens the file with \<^verbatim>\<open>open(BOOKINGS_CSV, "w")\<close> and
  writes the header and the rows is for the environment to say:
  \<^item> \<open>Written\<close>: the header and all rows reach the file;
  \<^item> \<open>Refused\<close>: \<^verbatim>\<open>open\<close> raises, and the file is as it was;
  \<^item> \<open>Torn n\<close>: \<^verbatim>\<open>open\<close> has emptied the file and the writing raises, with the first
    \<open>n\<close> rows in the file (a row cut in the middle is not a row of the model).
\<close>

datatype outcome = Written | Refused | Torn nat

definition write_csv :: "outcome \<Rightarrow> store \<Rightarrow> row list \<Rightarrow> error option \<times> store" where
  "write_csv w st rs =
     (case w of
        Written \<Rightarrow> (None, st\<lparr>csv := Some rs\<rparr>)
      | Refused \<Rightarrow> (Some OSError, st)
      | Torn n \<Rightarrow> (Some OSError, st\<lparr>csv := Some (take n rs)\<rparr>))"

subsection \<open>The limits of the reader and of \<^verbatim>\<open>int\<close>\<close>

text \<open>
  \<^verbatim>\<open>csv.reader\<close> raises on a field of more than 131072 characters, and \<^verbatim>\<open>int()\<close> and
  \<^verbatim>\<open>str()\<close> of CPython 3.11 raise \<^verbatim>\<open>ValueError\<close> on more than 4300 digits. The text
  of an integer in the file is its decimal numeral, with a minus sign when negative.
\<close>

fun ndigits :: "nat \<Rightarrow> nat" where
  "ndigits n = (if n < 10 then 1 else Suc (ndigits (n div 10)))"

declare ndigits.simps [simp del]

definition int_len :: "int \<Rightarrow> nat" where
  "int_len i = ndigits (nat \<bar>i\<bar>) + (if i < 0 then 1 else 0)"

definition field_limit :: nat where
  "field_limit = 131072"

definition max_str_digits :: nat where
  "max_str_digits = 4300"

definition int_ok :: "int \<Rightarrow> bool" where
  "int_ok i = (ndigits (nat \<bar>i\<bar>) \<le> max_str_digits)"

text \<open>One round of \<^verbatim>\<open>for row in reader\<close> yields the row when every field is in the limit.\<close>

definition csv_ok :: "row \<Rightarrow> bool" where
  "csv_ok r =
     (int_len (seat_id r) \<le> field_limit \<and> length (name r) \<le> field_limit \<and>
      length (mobile r) \<le> field_limit \<and> int_len (duration r) \<le> field_limit \<and>
      length (entry_time r) \<le> field_limit \<and> length (status r) \<le> field_limit)"

text \<open>\<^verbatim>\<open>int(row["seat_id"])\<close> and \<^verbatim>\<open>int(row["duration"])\<close>, on the text of the integer.\<close>

definition int_field :: "int \<Rightarrow> error + int" where
  "int_field i = (if int_ok i then Inr i else Inl ValueError)"

subsection \<open>Dates\<close>

text \<open>
  \<^verbatim>\<open>datetime.max\<close> is 9999-12-31 23:59:59.999999, which is day 3652059 of the
  calendar; 1000-01-01 is day 364878; \<^verbatim>\<open>timedelta\<close> holds at most 999999999 days in
  either direction.

  \<open>strftime\<close> is \<^verbatim>\<open>datetime.now().strftime("%Y-%m-%d %H:%M:%S")\<close>, which drops the
  microseconds. \<open>strptime\<close> reads the text back: the text that \<^verbatim>\<open>strftime\<close> writes for a
  year before 1000 has fewer than four digits for the year and does not match the format.
  \<open>timedelta_minutes\<close> is \<^verbatim>\<open>timedelta(minutes=m)\<close> and \<open>datetime_add\<close> the sum of a
  \<^verbatim>\<open>datetime\<close> and a \<^verbatim>\<open>timedelta\<close>: both raise \<^verbatim>\<open>OverflowError\<close> when the result is
  out of range.
\<close>

definition datetime_max :: int where
  "datetime_max = 3652059 * 86400 * 1000000 - 1"

definition year_1000 :: int where
  "year_1000 = 364877 * 86400"

definition strftime :: "int \<Rightarrow> int" where
  "strftime now = now div 1000000"

definition strptime :: "int \<Rightarrow> error + int" where
  "strptime secs =
     (if year_1000 \<le> secs \<and> secs * 1000000 \<le> datetime_max then Inr (secs * 1000000)
      else Inl ValueError)"

definition timedelta_minutes :: "int \<Rightarrow> error + int" where
  "timedelta_minutes m =
     (if - 999999999 \<le> m div 1440 \<and> m div 1440 \<le> 999999999 then Inr (m * 60000000)
      else Inl OverflowError)"

definition datetime_add :: "int \<Rightarrow> int \<Rightarrow> error + int" where
  "datetime_add t d =
     (if 0 \<le> t + d \<and> t + d \<le> datetime_max then Inr (t + d) else Inl OverflowError)"

subsection \<open>The active bookings\<close>

text \<open>
  The dictionary \<^verbatim>\<open>active\<close> maps a seat to \<^verbatim>\<open>(end, name, mobile, entry_time)\<close>. Python
  dictionaries keep insertion order, and the sweeper iterates over it, so it is an
  association list: an assignment replaces the value of a key in place or appends a new
  key, \<^verbatim>\<open>pop(k, None)\<close> removes the key.
\<close>

type_synonym booking = "int \<times> string \<times> string \<times> string"
type_synonym active_dict = "(int \<times> booking) list"

text \<open>Lines 52 to 54: \<^verbatim>\<open>start\<close>, \<^verbatim>\<open>duration\<close> and \<^verbatim>\<open>end\<close> of a row.\<close>

definition end_time :: "row \<Rightarrow> error + int" where
  "end_time r =
     bind_res (strptime (start_time r)) (\<lambda>start.
     bind_res (int_field (duration r)) (\<lambda>dur.
     bind_res (timedelta_minutes dur) (\<lambda>delta.
     datetime_add start delta)))"

text \<open>
  The body of the loop of \<^verbatim>\<open>read_active_bookings\<close>, for one row, with the reading
  \<open>t\<close> of the clock in that round.
\<close>

definition active_row :: "int \<Rightarrow> row \<Rightarrow> active_dict \<Rightarrow> error + active_dict" where
  "active_row t r act =
     (if status r = ''Occupied'' then
        bind_res (end_time r) (\<lambda>e.
          if t < e then
            bind_res (int_field (seat_id r)) (\<lambda>k.
              Inr (AList.update k (e, name r, mobile r, entry_time r) act))
          else Inr act)
      else Inr act)"

text \<open>
  The loop. The source reads the clock anew in every round: \<open>clock i\<close> is the reading
  in the round of row \<open>i\<close>.
\<close>

fun active_rows :: "(nat \<Rightarrow> int) \<Rightarrow> row list \<Rightarrow> active_dict \<Rightarrow> error + active_dict" where
  "active_rows clock [] act = Inr act"
| "active_rows clock (r # rs) act =
     (if csv_ok r then
        bind_res (active_row (clock 0) r act) (active_rows (\<lambda>i. clock (Suc i)) rs)
      else Inl CsvError)"

definition read_active_bookings :: "store \<Rightarrow> (nat \<Rightarrow> int) \<Rightarrow> error + active_dict" where
  "read_active_bookings st clock =
     (case csv st of None \<Rightarrow> Inr [] | Some rs \<Rightarrow> active_rows clock rs [])"

subsection \<open>The handlers that write\<close>

text \<open>
  \<open>ensure_csv\<close> writes the header only when the file is missing. \<open>add_booking\<close> reads
  the rows, keeps those of the other seats and appends the new row, with the clock
  reading as start time and the status \<open>Occupied\<close>. \<open>update_booking_status\<close> reads the
  rows and sets the status in those of the seat. Both read an existing file first, or
  start from no rows, and only then open the file for writing; an exception of the
  reading leaves the file as it was. Opening an existing file for reading is taken to
  succeed.
\<close>

definition ensure_csv :: "store \<Rightarrow> outcome \<Rightarrow> error option \<times> store" where
  "ensure_csv st w = (case csv st of None \<Rightarrow> write_csv w st [] | Some rs \<Rightarrow> (None, st))"

fun keep_rows :: "int \<Rightarrow> row list \<Rightarrow> error + row list" where
  "keep_rows sid [] = Inr []"
| "keep_rows sid (r # rs) =
     (if csv_ok r then
        bind_res (int_field (seat_id r)) (\<lambda>k.
        bind_res (keep_rows sid rs) (\<lambda>rows.
        Inr (if k \<noteq> sid then r # rows else rows)))
      else Inl CsvError)"

text \<open>
  The writer turns the seat and the duration of the new row into text, after the rows
  kept: when that raises, the rows kept are in the file and the new row is not.
\<close>

definition add_booking ::
  "store \<Rightarrow> outcome \<Rightarrow> int \<Rightarrow> int \<Rightarrow> string \<Rightarrow> string \<Rightarrow> int \<Rightarrow> string \<Rightarrow>
     error option \<times> store" where
  "add_booking st w now sid nm mob dur etime =
     (case keep_rows sid (records st) of
        Inl e \<Rightarrow> (Some e, st)
      | Inr rows \<Rightarrow>
          if int_ok sid \<and> int_ok dur then
            write_csv w st (rows @
              [\<lparr>seat_id = sid, name = nm, mobile = mob, duration = dur, entry_time = etime,
                start_time = strftime now, status = ''Occupied''\<rparr>])
          else
            (case write_csv w st rows of
               (None, st') \<Rightarrow> (Some ValueError, st')
             | (Some e, st') \<Rightarrow> (Some e, st')))"

fun set_rows :: "int \<Rightarrow> string \<Rightarrow> row list \<Rightarrow> error + row list" where
  "set_rows sid s [] = Inr []"
| "set_rows sid s (r # rs) =
     (if csv_ok r then
        bind_res (int_field (seat_id r)) (\<lambda>k.
        bind_res (set_rows sid s rs) (\<lambda>rows.
        Inr ((if k = sid then r\<lparr>status := s\<rparr> else r) # rows)))
      else Inl CsvError)"

definition update_booking_status ::
  "store \<Rightarrow> outcome \<Rightarrow> int \<Rightarrow> string \<Rightarrow> error option \<times> store" where
  "update_booking_status st w sid s =
     (case set_rows sid s (records st) of
        Inl e \<Rightarrow> (Some e, st)
      | Inr rows \<Rightarrow> write_csv w st rows)"

section \<open>The application\<close>

text \<open>
  Of the window only what the handlers decide is kept: the file, the dictionary
  \<^verbatim>\<open>self.active\<close>, and the message boxes shown, in order. The seat grid and the text
  box are presentation. A handler returns the state it reached together with the
  exception that left it, if any.

  A handler that reads the file several times takes the clock as \<open>clk\<close>: \<open>clk k i\<close> is
  the reading in the round of row \<open>i\<close> of its read number \<open>k\<close>.
\<close>

datatype dialog = InvalidInput | Booked int int | ResetDone | TimeOver int string

record app =
  disk :: store
  active :: active_dict
  dialogs :: "dialog list"

definition then_app ::
  "error option \<times> app \<Rightarrow> (app \<Rightarrow> error option \<times> app) \<Rightarrow> error option \<times> app" where
  "then_app m f = (case m of (None, a) \<Rightarrow> f a | (Some e, a) \<Rightarrow> (Some e, a))"

definition write_file :: "(store \<Rightarrow> error option \<times> store) \<Rightarrow> app \<Rightarrow> error option \<times> app" where
  "write_file h a = (case h (disk a) of (e, st) \<Rightarrow> (e, a\<lparr>disk := st\<rparr>))"

definition messagebox :: "dialog \<Rightarrow> app \<Rightarrow> error option \<times> app" where
  "messagebox d a = (None, a\<lparr>dialogs := dialogs a @ [d]\<rparr>)"

definition refresh_booking_list :: "(nat \<Rightarrow> int) \<Rightarrow> app \<Rightarrow> error option \<times> app" where
  "refresh_booking_list clock a =
     (case read_active_bookings (disk a) clock of Inl e \<Rightarrow> (Some e, a) | Inr act \<Rightarrow> (None, a))"

definition load_active :: "(nat \<Rightarrow> int) \<Rightarrow> app \<Rightarrow> error option \<times> app" where
  "load_active clock a =
     (case read_active_bookings (disk a) clock of
        Inl e \<Rightarrow> (Some e, a)
      | Inr act \<Rightarrow> (None, a\<lparr>active := act\<rparr>))"

definition refresh_ui :: "(nat \<Rightarrow> nat \<Rightarrow> int) \<Rightarrow> app \<Rightarrow> error option \<times> app" where
  "refresh_ui clk a = then_app (load_active (clk 0) a) (refresh_booking_list (clk 1))"

subsection \<open>Booking a seat\<close>

text \<open>
  \<^verbatim>\<open>str.strip()\<close> and \<^verbatim>\<open>int()\<close> on text of code points below 256. The white space
  that \<^verbatim>\<open>strip\<close> removes there is 9 to 13, 28 to 32, 133 and 160; the decimal digits
  are 48 to 57. \<^verbatim>\<open>int()\<close> removes white space itself, but not the separators 28 to
  31. A decimal literal is an optional sign and digits, with single underscores allowed
  between digits; \<^verbatim>\<open>int()\<close> raises when the digits are more than 4300.
\<close>

definition py_isspace :: "char \<Rightarrow> bool" where
  "py_isspace c =
     (let n = (of_char c :: nat)
      in (9 \<le> n \<and> n \<le> 13) \<or> (28 \<le> n \<and> n \<le> 32) \<or> n = 133 \<or> n = 160)"

definition py_strip :: "string \<Rightarrow> string" where
  "py_strip s = rev (dropWhile py_isspace (rev (dropWhile py_isspace s)))"

definition int_isspace :: "char \<Rightarrow> bool" where
  "int_isspace c =
     (let n = (of_char c :: nat) in (9 \<le> n \<and> n \<le> 13) \<or> n = 32 \<or> n = 133 \<or> n = 160)"

definition int_strip :: "string \<Rightarrow> string" where
  "int_strip s = rev (dropWhile int_isspace (rev (dropWhile int_isspace s)))"

definition is_digit :: "char \<Rightarrow> bool" where
  "is_digit c = (let n = (of_char c :: nat) in 48 \<le> n \<and> n \<le> 57)"

definition digit_val :: "char \<Rightarrow> int" where
  "digit_val c = int (of_char c) - 48"

fun py_digits :: "int \<Rightarrow> string \<Rightarrow> int option" where
  "py_digits acc [] = Some acc"
| "py_digits acc [c] = (if is_digit c then Some (acc * 10 + digit_val c) else None)"
| "py_digits acc (c # d # cs) =
     (if is_digit c then py_digits (acc * 10 + digit_val c) (d # cs)
      else if c = CHR ''_'' \<and> is_digit d then py_digits (acc * 10 + digit_val d) cs
      else None)"

definition py_unsigned :: "string \<Rightarrow> int option" where
  "py_unsigned s =
     (case s of
        [] \<Rightarrow> None
      | c # cs \<Rightarrow>
          if is_digit c \<and> length (filter is_digit s) \<le> max_str_digits
          then py_digits (digit_val c) cs else None)"

definition py_int :: "string \<Rightarrow> int option" where
  "py_int s =
     (case int_strip s of
        [] \<Rightarrow> None
      | c # cs \<Rightarrow>
          if c = CHR ''-'' then map_option uminus (py_unsigned cs)
          else if c = CHR ''+'' then py_unsigned cs
          else py_unsigned (c # cs))"

text \<open>
  The \<^verbatim>\<open>try\<close> block of \<^verbatim>\<open>confirm\<close>: the four entries of the form, stripped and parsed.
  \<open>None\<close> stands for the exception that the bare \<^verbatim>\<open>except\<close> turns into the error box.
\<close>

definition parse_form ::
  "string \<Rightarrow> string \<Rightarrow> string \<Rightarrow> string \<Rightarrow> (string \<times> string \<times> int \<times> string) option" where
  "parse_form name_e mobile_e duration_e entry_e =
     (let nm = py_strip name_e; mob = py_strip mobile_e
      in case py_int (py_strip duration_e) of
           None \<Rightarrow> None
         | Some dur \<Rightarrow>
             (let etime = py_strip entry_e
              in if nm = [] \<or> mob = [] \<or> etime = [] then None
                 else Some (nm, mob, dur, etime)))"

text \<open>
  \<open>w\<close> is what becomes of the write of \<open>add_booking\<close> and \<open>now\<close> its clock reading;
  the reads that follow are numbers 0 to 3.
\<close>

definition confirm ::
  "int \<Rightarrow> string \<Rightarrow> string \<Rightarrow> string \<Rightarrow> string \<Rightarrow> outcome \<Rightarrow> int \<Rightarrow> (nat \<Rightarrow> nat \<Rightarrow> int) \<Rightarrow> app \<Rightarrow>
     error option \<times> app" where
  "confirm sid name_e mobile_e duration_e entry_e w now clk a =
     (case parse_form name_e mobile_e duration_e entry_e of
        None \<Rightarrow> messagebox InvalidInput a
      | Some (nm, mob, dur, etime) \<Rightarrow>
          then_app (write_file (\<lambda>st. add_booking st w now sid nm mob dur etime) a) (\<lambda>a.
          then_app (load_active (clk 0) a) (\<lambda>a.
          then_app (refresh_ui (\<lambda>k. clk (Suc k)) a) (\<lambda>a.
          then_app (refresh_booking_list (clk 3) a) (messagebox (Booked sid dur))))))"

subsection \<open>Resetting\<close>

definition reset_seat :: "int \<Rightarrow> outcome \<Rightarrow> (nat \<Rightarrow> nat \<Rightarrow> int) \<Rightarrow> app \<Rightarrow> error option \<times> app" where
  "reset_seat sid w clk a =
     then_app (write_file (\<lambda>st. update_booking_status st w sid ''Free'') a) (\<lambda>a.
     then_app (refresh_ui clk (a\<lparr>active := AList.delete sid (active a)\<rparr>))
       (refresh_booking_list (clk 2)))"

text \<open>\<open>yes\<close> is the answer to the question \<^verbatim>\<open>Are you sure to reset ALL seats?\<close>.\<close>

definition reset_all :: "bool \<Rightarrow> outcome \<Rightarrow> (nat \<Rightarrow> nat \<Rightarrow> int) \<Rightarrow> app \<Rightarrow> error option \<times> app" where
  "reset_all yes w clk a =
     (if yes then
        then_app (write_file (\<lambda>st. ensure_csv st w) a) (\<lambda>a.
        then_app (refresh_ui clk (a\<lparr>active := []\<rparr>)) (\<lambda>a.
        then_app (refresh_booking_list (clk 2) a) (messagebox ResetDone)))
      else (None, a))"

subsection \<open>The sweeper\<close>

text \<open>
  One pass of the \<^verbatim>\<open>for\<close> loop of \<^verbatim>\<open>auto_reset_thread\<close> over the snapshot
  \<^verbatim>\<open>list(self.active.items())\<close>, at the clock reading \<open>now\<close> of the round; \<open>outs i\<close>
  is what becomes of the write for item \<open>i\<close> of the snapshot, when it is made. The
  refreshes handed to the main thread with \<^verbatim>\<open>self.after\<close> run there, later; of the three
  callbacks only the message box is recorded.
\<close>

fun sweep_items ::
  "int \<Rightarrow> (nat \<Rightarrow> outcome) \<Rightarrow> (int \<times> booking) list \<Rightarrow> app \<Rightarrow> error option \<times> app" where
  "sweep_items now outs [] a = (None, a)"
| "sweep_items now outs ((sid, (e, nm, mob, etime)) # items) a =
     (if e \<le> now then
        then_app (write_file (\<lambda>st. update_booking_status st (outs 0) sid ''Free'') a) (\<lambda>a.
        then_app (messagebox (TimeOver sid nm) (a\<lparr>active := AList.delete sid (active a)\<rparr>))
          (sweep_items now (\<lambda>i. outs (Suc i)) items))
      else sweep_items now (\<lambda>i. outs (Suc i)) items a)"

definition sweep :: "int \<Rightarrow> (nat \<Rightarrow> outcome) \<Rightarrow> app \<Rightarrow> error option \<times> app" where
  "sweep now outs a = sweep_items now outs (active a) a"

text \<open>
  The thread loops for ever, reading the clock once per round. The list holds, for the
  rounds looked at, the clock reading and what becomes of the writes; an exception ends
  the thread, with the rounds that remain not run.
\<close>

fun auto_reset_thread ::
  "(int \<times> (nat \<Rightarrow> outcome)) list \<Rightarrow> app \<Rightarrow> error option \<times> app" where
  "auto_reset_thread [] a = (None, a)"
| "auto_reset_thread ((now, outs) # rounds) a =
     then_app (sweep now outs a) (auto_reset_thread rounds)"

section \<open>Notions of the specification\<close>

text \<open>
  The specification gives a record the end time \<open>start_time + duration\<close> minutes, calls
  it active when its status is \<open>Occupied\<close> and the instant asked about is before its end
  time, and reports for an active record its end time, name, mobile and entry time.
\<close>

definition end_of :: "row \<Rightarrow> int" where
  "end_of r = start_time r * 1000000 + duration r * 60000000"

definition is_active :: "int \<Rightarrow> row \<Rightarrow> bool" where
  "is_active now r = (status r = ''Occupied'' \<and> now < end_of r)"

definition booking_of :: "row \<Rightarrow> booking" where
  "booking_of r = (end_of r, name r, mobile r, entry_time r)"

text \<open>
  The start time of the row is a second from the year 1000 on that a \<^verbatim>\<open>datetime\<close> can
  hold, and so is its end time.
\<close>

definition datetime_ok :: "row \<Rightarrow> bool" where
  "datetime_ok r =
     (year_1000 \<le> start_time r \<and> start_time r * 1000000 \<le> datetime_max \<and>
      0 \<le> end_of r \<and> end_of r \<le> datetime_max)"

text \<open>The reader yields the row, and \<^verbatim>\<open>int\<close> reads its seat.\<close>

definition readable :: "row \<Rightarrow> bool" where
  "readable r = (csv_ok r \<and> int_ok (seat_id r))"

text \<open>Every row is readable, and every \<open>Occupied\<close> row has its dates in range.\<close>

definition rows_ok :: "row list \<Rightarrow> bool" where
  "rows_ok rs = list_all (\<lambda>r. readable r \<and> (status r \<noteq> ''Occupied'' \<or> datetime_ok r)) rs"

text \<open>A clock that stands still: the instant \<open>t\<close> in every round.\<close>

definition steady :: "int \<Rightarrow> nat \<Rightarrow> int" where
  "steady t i = t"

definition steady_all :: "int \<Rightarrow> nat \<Rightarrow> nat \<Rightarrow> int" where
  "steady_all t k i = t"

text \<open>Rounds of the sweeper in which every write is refused, and in which every write is made.\<close>

definition refusing :: "nat \<Rightarrow> outcome" where
  "refusing i = Refused"

definition writing :: "nat \<Rightarrow> outcome" where
  "writing i = Written"

subsection \<open>Example states\<close>

text \<open>
  Bookings made by Asha at second 63900000000 of the calendar (29 November 2025),
  looked at thirty seconds later.
\<close>

definition example_start :: int where
  "example_start = 63900000000000000"

definition example_now :: int where
  "example_now = 63900000030000000"

definition booked :: "int \<Rightarrow> int \<Rightarrow> row" where
  "booked sid dur =
     \<lparr>seat_id = sid, name = ''Asha'', mobile = ''9999999999'', duration = dur,
      entry_time = ''10:00'', start_time = 63900000000, status = ''Occupied''\<rparr>"

definition five_rows :: "row list" where
  "five_rows = [booked 1 60, booked 2 60, booked 3 60, booked 4 60, booked 5 60]"

definition five_app :: app where
  "five_app =
     \<lparr>disk = \<lparr>csv = Some five_rows\<rparr>,
      active = map (\<lambda>sid. (sid, 63900003600000000, ''Asha'', ''9999999999'', ''10:00''))
                 [1, 2, 3, 4, 5],
      dialogs = []\<rparr>"

definition empty_app :: app where
  "empty_app = \<lparr>disk = \<lparr>csv = Some []\<rparr>, active = [], dialogs = []\<rparr>"

text \<open>
  Seat 3 booked for one minute; the sweeper's dictionary is the one read thirty seconds
  after the booking.
\<close>

definition minute_app :: app where
  "minute_app =
     \<lparr>disk = \<lparr>csv = Some [booked 3 1]\<rparr>,
      active = [(3, 63900000060000000, ''Asha'', ''9999999999'', ''10:00'')],
      dialogs = []\<rparr>"

text \<open>A name of 131073 characters, one more than the reader takes.\<close>

definition long_name :: string where
  "long_name = replicate 131073 (CHR ''a'')"

section \<open>Properties of the model\<close>

lemma py_strip_empty: "py_strip s = [] \<longleftrightarrow> (\<forall>c\<in>set s. py_isspace c)"
proof
  assume "py_strip s = []"
  then have "dropWhile py_isspace (rev (dropWhile py_isspace s)) = []"
    by (simp add: py_strip_def)
  then have "\<forall>c\<in>set (dropWhile py_isspace s). py_isspace c"
    by (simp add: dropWhile_eq_Nil_conv)
  then have "dropWhile py_isspace s = []"
    by (metis hd_dropWhile list.set_sel(1))
  then show "\<forall>c\<in>set s. py_isspace c"
    by (simp add: dropWhile_eq_Nil_conv)
next
  assume "\<forall>c\<in>set s. py_isspace c"
  then have "dropWhile py_isspace s = []"
    by (simp add: dropWhile_eq_Nil_conv)
  then show "py_strip s = []"
    unfolding py_strip_def by (simp only: rev.simps dropWhile.simps)
qed

lemma bind_res_simps [simp]:
  "bind_res (Inl e) f = Inl e"
  "bind_res (Inr x) f = f x"
  by (simp_all add: bind_res_def)

lemma then_app_simps [simp]:
  "then_app (None, a) f = f a"
  "then_app (Some e, a) f = (Some e, a)"
  by (simp_all add: then_app_def)

subsection \<open>Digits\<close>

lemma ndigits_le: "n < 10 ^ k \<Longrightarrow> 0 < k \<Longrightarrow> ndigits n \<le> k"
proof (induction k arbitrary: n)
  case 0
  then show ?case by simp
next
  case (Suc k)
  show ?case
  proof (cases "n < 10")
    case True
    then show ?thesis by (subst ndigits.simps) simp
  next
    case False
    with Suc.prems have "n div 10 < 10 ^ k" by (simp add: less_mult_imp_div_less mult.commute)
    moreover from False Suc.prems have "0 < k" by (cases k) auto
    ultimately have "ndigits (n div 10) \<le> k" by (rule Suc.IH)
    with False show ?thesis by (subst ndigits.simps) simp
  qed
qed

lemma int_ok_small: "\<bar>i\<bar> < 1000000000000 \<Longrightarrow> int_ok i"
proof -
  assume "\<bar>i\<bar> < 1000000000000"
  then have "nat \<bar>i\<bar> < 10 ^ 12" by simp
  then have "ndigits (nat \<bar>i\<bar>) \<le> 12" by (rule ndigits_le) simp
  then show ?thesis by (simp add: int_ok_def max_str_digits_def)
qed

lemma int_len_small: "\<bar>i\<bar> < 1000000000000 \<Longrightarrow> int_len i \<le> 131072"
proof -
  assume "\<bar>i\<bar> < 1000000000000"
  then have "nat \<bar>i\<bar> < 10 ^ 12" by simp
  then have "ndigits (nat \<bar>i\<bar>) \<le> 12" by (rule ndigits_le) simp
  moreover have "n + (if i < 0 then 1 else 0) \<le> 131072" if "n \<le> 12" for n :: nat
    using that by simp
  ultimately show ?thesis unfolding int_len_def by blast
qed

lemma int_ok_len: "int_ok i \<Longrightarrow> int_len i \<le> field_limit"
proof -
  assume "int_ok i"
  then have "ndigits (nat \<bar>i\<bar>) \<le> 4300" by (simp add: int_ok_def max_str_digits_def)
  moreover have "n + (if i < 0 then 1 else 0) \<le> 131072" if "n \<le> 4300" for n :: nat
    using that by simp
  ultimately show ?thesis unfolding int_len_def field_limit_def by blast
qed

lemma int_field_ok [simp]: "int_ok i \<Longrightarrow> int_field i = Inr i"
  by (simp add: int_field_def)

subsection \<open>The end time\<close>

lemma end_time_Inr: "end_time r = Inr e \<Longrightarrow> e = end_of r"
  by (auto simp: end_time_def end_of_def strptime_def int_field_def timedelta_minutes_def
        datetime_add_def bind_res_def split: if_splits sum.splits)

lemma end_time_ok:
  assumes "datetime_ok r"
  shows "end_time r = Inr (end_of r)"
proof -
  from assms have s: "year_1000 \<le> start_time r" "start_time r * 1000000 \<le> datetime_max"
    and e: "0 \<le> end_of r" "end_of r \<le> datetime_max"
    by (simp_all add: datetime_ok_def)
  from s(1) have s0: "0 \<le> start_time r" by (simp add: year_1000_def)
  from s0 s(2) e have "- datetime_max \<le> duration r * 60000000" "duration r * 60000000 \<le> datetime_max"
    by (simp_all add: end_of_def)
  then have d: "- 5258964960 \<le> duration r" "duration r \<le> 5258964960"
    by (simp_all add: datetime_max_def)
  then have "\<bar>duration r\<bar> < 1000000000000" by simp
  then have i: "int_ok (duration r)" by (rule int_ok_small)
  from d have m: "- 999999999 \<le> duration r div 1440" "duration r div 1440 \<le> 999999999"
    by linarith+
  from s e i m show ?thesis
    by (simp add: end_time_def strptime_def timedelta_minutes_def datetime_add_def end_of_def)
qed

lemma datetime_ok_int_ok: "datetime_ok r \<Longrightarrow> int_ok (duration r)"
proof -
  assume "datetime_ok r"
  then have "year_1000 \<le> start_time r" "start_time r * 1000000 \<le> datetime_max"
    "0 \<le> end_of r" "end_of r \<le> datetime_max"
    by (simp_all add: datetime_ok_def)
  then have "- 5258964960 \<le> duration r" "duration r \<le> 5258964960"
    by (simp_all add: end_of_def datetime_max_def year_1000_def)
  then have "\<bar>duration r\<bar> < 1000000000000" by simp
  then show ?thesis by (rule int_ok_small)
qed

lemma new_row_ok:
  assumes "year_1000 * 1000000 \<le> now" and "0 < dur"
    and "strftime now * 1000000 + dur * 60000000 \<le> datetime_max"
  shows "datetime_ok \<lparr>seat_id = sid, name = nm, mobile = mob, duration = dur, entry_time = et,
            start_time = strftime now, status = ''Occupied''\<rparr>"
proof -
  from assms(1) have s: "year_1000 \<le> strftime now"
    unfolding strftime_def by linarith
  then have s0: "0 \<le> strftime now" by (simp add: year_1000_def)
  from s0 assms(2,3) show ?thesis
    using s by (simp add: datetime_ok_def end_of_def)
qed

lemma now_before_end: "0 < dur \<Longrightarrow> now < strftime now * 1000000 + dur * (60000000::int)"
  unfolding strftime_def by linarith

subsection \<open>The loop of the resolver\<close>

lemma active_row_Inr:
  "active_row t r act0 = Inr act \<Longrightarrow>
     act = (if is_active t r then AList.update (seat_id r) (booking_of r) act0 else act0)"
  by (auto simp: active_row_def is_active_def booking_of_def bind_res_def int_field_def
           dest: end_time_Inr split: if_splits sum.splits)

lemma active_row_ok:
  assumes "int_ok (seat_id r)" and "status r \<noteq> ''Occupied'' \<or> datetime_ok r"
  shows "active_row t r act0 =
     Inr (if is_active t r then AList.update (seat_id r) (booking_of r) act0 else act0)"
  using assms by (auto simp: active_row_def is_active_def booking_of_def end_time_ok)

lemma active_rows_Cons_Inr:
  assumes "active_rows clock (r # rs) act0 = Inr act"
  obtains a1 where "csv_ok r" and "active_row (clock 0) r act0 = Inr a1"
    and "active_rows (\<lambda>i. clock (Suc i)) rs a1 = Inr act"
  using assms by (cases "active_row (clock 0) r act0") (auto split: if_splits)

lemma active_rows_distinct:
  "active_rows clock rs act0 = Inr act \<Longrightarrow> distinct (map fst act0) \<Longrightarrow> distinct (map fst act)"
proof (induction rs arbitrary: clock act0)
  case Nil
  then show ?case by simp
next
  case (Cons r rs)
  from Cons.prems(1) obtain a1
    where a1: "active_row (clock 0) r act0 = Inr a1"
      "active_rows (\<lambda>i. clock (Suc i)) rs a1 = Inr act"
    by (rule active_rows_Cons_Inr)
  from active_row_Inr[OF a1(1)] Cons.prems(2) have "distinct (map fst a1)"
    by (simp add: AList.distinct_update)
  with Cons.IH[OF a1(2)] show ?case .
qed

lemma active_rows_sound:
  "active_rows clock rs act0 = Inr act \<Longrightarrow> map_of act s = Some b \<Longrightarrow>
     map_of act0 s = Some b \<or>
     (\<exists>i<length rs. seat_id (rs ! i) = s \<and> is_active (clock i) (rs ! i) \<and>
        b = booking_of (rs ! i))"
proof (induction rs arbitrary: clock act0)
  case Nil
  then show ?case by simp
next
  case (Cons r rs)
  from Cons.prems(1) obtain a1
    where a1: "active_row (clock 0) r act0 = Inr a1"
      "active_rows (\<lambda>i. clock (Suc i)) rs a1 = Inr act"
    by (rule active_rows_Cons_Inr)
  from Cons.IH[OF a1(2) Cons.prems(2)]
  consider "map_of a1 s = Some b"
    | i where "i < length rs" "seat_id (rs ! i) = s" "is_active (clock (Suc i)) (rs ! i)"
        "b = booking_of (rs ! i)"
    by blast
  then show ?case
  proof cases
    case 1
    with active_row_Inr[OF a1(1)] have
      "map_of act0 s = Some b \<or> (seat_id r = s \<and> is_active (clock 0) r \<and> b = booking_of r)"
      by (auto simp: AList.update_conv' split: if_splits)
    then show ?thesis by auto
  next
    case 2
    then have "Suc i < length (r # rs) \<and> seat_id ((r # rs) ! Suc i) = s \<and>
        is_active (clock (Suc i)) ((r # rs) ! Suc i) \<and> b = booking_of ((r # rs) ! Suc i)"
      by simp
    then show ?thesis by blast
  qed
qed

lemma active_rows_keeps:
  "active_rows clock rs act0 = Inr act \<Longrightarrow> s \<in> fst ` set act0 \<Longrightarrow> s \<in> fst ` set act"
proof (induction rs arbitrary: clock act0)
  case Nil
  then show ?case by simp
next
  case (Cons r rs)
  from Cons.prems(1) obtain a1
    where a1: "active_row (clock 0) r act0 = Inr a1"
      "active_rows (\<lambda>i. clock (Suc i)) rs a1 = Inr act"
    by (rule active_rows_Cons_Inr)
  from active_row_Inr[OF a1(1)] Cons.prems(2) have "s \<in> fst ` set a1"
    by (auto simp: AList.dom_update split: if_splits)
  from Cons.IH[OF a1(2) this] show ?case .
qed

lemma active_rows_complete:
  "active_rows clock rs act0 = Inr act \<Longrightarrow> i < length rs \<Longrightarrow> is_active (clock i) (rs ! i) \<Longrightarrow>
     seat_id (rs ! i) \<in> fst ` set act"
proof (induction rs arbitrary: clock act0 i)
  case Nil
  then show ?case by simp
next
  case (Cons r rs)
  from Cons.prems(1) obtain a1
    where a1: "active_row (clock 0) r act0 = Inr a1"
      "active_rows (\<lambda>i. clock (Suc i)) rs a1 = Inr act"
    by (rule active_rows_Cons_Inr)
  show ?case
  proof (cases i)
    case 0
    with active_row_Inr[OF a1(1)] Cons.prems(3) have "seat_id r \<in> fst ` set a1"
      by (simp add: AList.dom_update)
    from active_rows_keeps[OF a1(2) this] 0 show ?thesis by simp
  next
    case (Suc j)
    with Cons.prems(2,3) have "j < length rs" "is_active (clock (Suc j)) (rs ! j)" by simp_all
    from Cons.IH[OF a1(2) this] Suc show ?thesis by simp
  qed
qed

lemma active_rows_total:
  "rows_ok rs \<Longrightarrow> \<exists>act. active_rows clock rs act0 = Inr act"
proof (induction rs arbitrary: clock act0)
  case Nil
  then show ?case by simp
next
  case (Cons r rs)
  then have r: "csv_ok r" "int_ok (seat_id r)" "status r \<noteq> ''Occupied'' \<or> datetime_ok r"
    and rs: "rows_ok rs"
    by (simp_all add: rows_ok_def readable_def)
  from Cons.IH[OF rs] r(1) active_row_ok[OF r(2,3)] show ?case by simp
qed

lemma active_rows_append:
  "active_rows clock (xs @ ys) act0 =
     bind_res (active_rows clock xs act0) (active_rows (\<lambda>i. clock (length xs + i)) ys)"
  by (induction xs arbitrary: clock act0) (auto simp: bind_res_def split: sum.splits)

lemma read_active_bookings_records:
  "read_active_bookings st clock = active_rows clock (records st) []"
  by (simp add: read_active_bookings_def records_def split: option.splits)

lemma read_active_bookings_lookup:
  assumes ok: "rows_ok (records st)" and d: "distinct (map seat_id (records st))"
    and i: "i < length (records st)"
  shows "\<exists>act. read_active_bookings st clock = Inr act \<and>
           map_of act (seat_id (records st ! i)) =
             (if is_active (clock i) (records st ! i) then Some (booking_of (records st ! i))
              else None)"
proof -
  let ?rs = "records st"
  from active_rows_total[OF ok] obtain act where act: "active_rows clock ?rs [] = Inr act"
    by blast
  have same: "j = i" if "j < length ?rs" "seat_id (?rs ! j) = seat_id (?rs ! i)" for j
    using that d i by (metis distinct_conv_nth length_map nth_map)
  show ?thesis
  proof (cases "is_active (clock i) (?rs ! i)")
    case True
    from active_rows_complete[OF act i True] obtain b
      where b: "map_of act (seat_id (?rs ! i)) = Some b"
      by (metis domD dom_map_of_conv_image_fst)
    from active_rows_sound[OF act b] same have "b = booking_of (?rs ! i)" by auto
    with b True act show ?thesis by (simp add: read_active_bookings_records)
  next
    case False
    have "map_of act (seat_id (?rs ! i)) = None"
    proof (cases "map_of act (seat_id (?rs ! i))")
      case (Some b)
      from active_rows_sound[OF act Some] same False show ?thesis by auto
    qed simp
    with False act show ?thesis by (simp add: read_active_bookings_records)
  qed
qed

lemma readers_keep_disk:
  "disk (snd (load_active clock a)) = disk a"
  "disk (snd (refresh_booking_list clock a)) = disk a"
  "disk (snd (refresh_ui clk a)) = disk a"
  by (auto simp: load_active_def refresh_booking_list_def refresh_ui_def then_app_def
           split: sum.splits option.splits prod.splits)

subsection \<open>The loops of the writers\<close>

lemma records_csv: "records (st\<lparr>csv := Some rs\<rparr>) = rs"
  by (simp add: records_def)

lemma keep_rows_Inr:
  "keep_rows sid rs = Inr rows \<Longrightarrow> rows = filter (\<lambda>r. seat_id r \<noteq> sid) rs"
  by (induction rs arbitrary: rows)
     (auto simp: bind_res_def int_field_def split: if_splits sum.splits)

lemma keep_rows_ok:
  "list_all readable rs \<Longrightarrow> keep_rows sid rs = Inr (filter (\<lambda>r. seat_id r \<noteq> sid) rs)"
  by (induction rs) (auto simp: readable_def)

lemma set_rows_Inr:
  "set_rows sid s rs = Inr rows \<Longrightarrow>
     rows = map (\<lambda>r. if seat_id r = sid then r\<lparr>status := s\<rparr> else r) rs"
  by (induction rs arbitrary: rows)
     (auto simp: bind_res_def int_field_def split: if_splits sum.splits)

lemma set_rows_ok:
  "list_all readable rs \<Longrightarrow>
     set_rows sid s rs = Inr (map (\<lambda>r. if seat_id r = sid then r\<lparr>status := s\<rparr> else r) rs)"
  by (induction rs) (auto simp: readable_def)

lemma set_rows_absent:
  "set_rows sid s rs = Inr rows \<Longrightarrow> sid \<notin> seat_id ` set rs \<Longrightarrow> rows = rs"
  by (drule set_rows_Inr) (auto intro!: map_idI)

lemma update_booking_status_twice:
  "snd (update_booking_status (snd (update_booking_status st w sid s)) w sid s)
     = snd (update_booking_status st w sid s)"
proof (cases "set_rows sid s (records st)")
  case (Inl err)
  then show ?thesis by (simp add: update_booking_status_def)
next
  case (Inr rows)
  let ?f = "\<lambda>r. if seat_id r = sid then r\<lparr>status := s\<rparr> else r"
  from set_rows_Inr[OF Inr] have rows: "rows = map ?f (records st)" .
  have idem: "map ?f (map ?f xs) = map ?f xs" for xs :: "row list"
    by (induction xs) auto
  have again: "snd (update_booking_status (st\<lparr>csv := Some xs\<rparr>) w' sid s) = st\<lparr>csv := Some xs\<rparr>"
    if "map ?f xs = xs" "w' = Written \<or> w' = Refused \<or> (\<exists>n. w' = Torn n \<and> take n xs = xs)"
    for xs w'
  proof (cases "set_rows sid s xs")
    case (Inl err)
    then show ?thesis by (simp add: update_booking_status_def records_csv)
  next
    case (Inr ys)
    from set_rows_Inr[OF Inr] that(1) have "ys = xs" by simp
    with Inr that(2) show ?thesis
      by (auto simp: update_booking_status_def records_csv write_csv_def)
  qed
  show ?thesis
  proof (cases w)
    case Written
    then have "snd (update_booking_status st w sid s) = st\<lparr>csv := Some rows\<rparr>"
      using Inr by (simp add: update_booking_status_def write_csv_def)
    moreover have "map ?f rows = rows" unfolding rows by (rule idem)
    ultimately show ?thesis using again[of rows w] Written by simp
  next
    case Refused
    then have "snd (update_booking_status st w sid s) = st"
      using Inr by (simp add: update_booking_status_def write_csv_def)
    then show ?thesis by simp
  next
    case (Torn n)
    then have "snd (update_booking_status st w sid s) = st\<lparr>csv := Some (take n rows)\<rparr>"
      using Inr by (simp add: update_booking_status_def write_csv_def)
    moreover have "map ?f (take n rows) = take n rows"
      unfolding rows by (metis idem take_map)
    ultimately show ?thesis using again[of "take n rows" w] Torn by simp
  qed
qed

lemma update_booking_status_fails:
  "w \<noteq> Written \<Longrightarrow> \<exists>e. fst (update_booking_status st w sid s) = Some e"
  by (cases w) (auto simp: update_booking_status_def write_csv_def split: sum.splits)

lemma reset_all_keeps_file:
  assumes "csv (disk a) = Some rs"
  shows "disk (snd (reset_all yes w clk a)) = disk a"
  using assms
  by (auto simp: reset_all_def write_file_def ensure_csv_def messagebox_def then_app_def
        refresh_ui_def load_active_def refresh_booking_list_def
      split: sum.splits option.splits prod.splits)

lemma sweep_items_fails:
  "i < length items \<Longrightarrow> fst (snd (items ! i)) \<le> now \<Longrightarrow> outs i \<noteq> Written \<Longrightarrow>
     \<exists>e. fst (sweep_items now outs items a) = Some e"
proof (induction now outs items a arbitrary: i rule: sweep_items.induct)
  case (1 now outs a)
  then show ?case by simp
next
  case (2 now outs sid e nm mob etime items a)
  show ?case
  proof (cases i)
    case 0
    with "2.prems" have e: "e \<le> now" and o: "outs 0 \<noteq> Written" by simp_all
    from update_booking_status_fails[OF o, of "disk a" sid "''Free''"]
    obtain err where "fst (update_booking_status (disk a) (outs 0) sid ''Free'') = Some err" ..
    with e show ?thesis
      by (cases "update_booking_status (disk a) (outs 0) sid ''Free''")
         (simp add: write_file_def)
  next
    case (Suc j)
    with "2.prems" have j: "j < length items" "fst (snd (items ! j)) \<le> now"
      "outs (Suc j) \<noteq> Written" by simp_all
    show ?thesis
    proof (cases "e \<le> now")
      case False
      with "2.IH"(2)[OF False j] show ?thesis by simp
    next
      case True
      from "2.IH"(1)[OF True j]
      have ih: "\<exists>err. fst (sweep_items now (\<lambda>i. outs (Suc i)) items a') = Some err" for a' .
      obtain r st' where u: "update_booking_status (disk a) (outs 0) sid ''Free'' = (r, st')"
        by (cases "update_booking_status (disk a) (outs 0) sid ''Free''")
      show ?thesis
      proof (cases r)
        case (Some err)
        with True u show ?thesis by (simp add: write_file_def)
      next
        case None
        with True u ih show ?thesis by (simp add: write_file_def messagebox_def)
      qed
    qed
  qed
qed

subsection \<open>Unfolding on concrete states\<close>

lemmas date_defs =
  end_time_def strptime_def strftime_def timedelta_minutes_def datetime_add_def datetime_max_def
  year_1000_def

lemmas limit_defs =
  csv_ok_def field_limit_def int_field_def int_ok_small int_len_small

lemmas parse_defs =
  parse_form_def py_int_def py_strip_def py_isspace_def int_strip_def int_isspace_def
  py_unsigned_def is_digit_def digit_val_def max_str_digits_def

lemmas app_defs =
  write_file_def messagebox_def refresh_booking_list_def load_active_def refresh_ui_def
  steady_def steady_all_def refusing_def writing_def

lemmas store_defs =
  read_active_bookings_def active_row_def records_def write_csv_def ensure_csv_def
  add_booking_def update_booking_status_def

lemma rows_ok_five: "rows_ok five_rows"
  by (simp add: rows_ok_def readable_def datetime_ok_def end_of_def five_rows_def booked_def
        limit_defs date_defs)

lemma distinct_five: "distinct (map seat_id (records (disk five_app)))"
  by (simp add: five_app_def five_rows_def booked_def records_def)

lemma readable_five: "list_all readable (records (disk five_app))"
  by (simp add: five_app_def five_rows_def booked_def records_def readable_def limit_defs)

lemma length_long_name: "length long_name = 131073"
  by (simp add: long_name_def)

subsection \<open>The library functions at their limits\<close>

lemma strptime_year_1000:
  "strptime 31525372799 = Inl ValueError"
  "strptime 31525372800 = Inr 31525372800000000"
  "strptime 315537897599 = Inr 315537897599000000"
  "strptime 315537897600 = Inl ValueError"
  by (simp_all add: strptime_def year_1000_def datetime_max_def)

lemma datetime_add_max:
  "datetime_add 315537897599000000 999999 = Inr 315537897599999999"
  "datetime_add 315537897599000000 1000000 = Inl OverflowError"
  "datetime_add 0 (- 1) = Inl OverflowError"
  by (simp_all add: datetime_add_def datetime_max_def)

lemma timedelta_minutes_limit:
  "timedelta_minutes 1439999999999 = Inr 86399999999940000000"
  "timedelta_minutes 1440000000000 = Inl OverflowError"
  "timedelta_minutes (- 1439999998560) = Inr (- 86399999913600000000)"
  "timedelta_minutes (- 1439999998561) = Inl OverflowError"
  by (simp_all add: timedelta_minutes_def)

lemma py_int_white_space:
  "py_int [CHR 0xA0, CHR ''5''] = Some 5"
  "py_int [CHR ''5'', CHR 0x85] = Some 5"
  "py_int [CHR 0x1C, CHR ''5''] = None"
  "py_int (py_strip [CHR 0x1C, CHR ''5'']) = Some 5"
  "py_int ''1_0'' = Some 10"
  "py_int ''1__0'' = None"
  "py_int ''+-5'' = None"
  by (simp_all add: parse_defs)

lemma py_int_digit_limit:
  "py_int (CHR ''1'' # replicate 4300 (CHR ''1'')) = None"
  by (simp add: py_int_def int_strip_def int_isspace_def py_unsigned_def is_digit_def
        max_str_digits_def dropWhile_append)

lemma csv_ok_limit:
  "csv_ok ((booked 3 60)\<lparr>name := replicate 131072 (CHR ''a'')\<rparr>)"
  "\<not> csv_ok ((booked 3 60)\<lparr>name := replicate 131073 (CHR ''a'')\<rparr>)"
  by (simp_all add: booked_def limit_defs)

section \<open>The claims\<close>

subsection \<open>Reading\<close>

text \<open>
  C10. When the file \<^verbatim>\<open>bookings.csv\<close> does not exist, \<open>read_active_bookings\<close> returns
  the empty dictionary and raises nothing, whatever the clock reads; the answer is the
  one it gives on a file that holds the header and no row.
\<close>

theorem missing_file_no_bookings:
  assumes "csv st = None"
  shows "read_active_bookings st clock = Inr [] \<and>
         read_active_bookings st clock = read_active_bookings (st\<lparr>csv := Some []\<rparr>) clock"
  using assms by (simp add: read_active_bookings_def)

theorem missing_file_no_bookings_witness:
  "csv \<lparr>csv = None\<rparr> = None \<and>
   read_active_bookings \<lparr>csv = None\<rparr> (steady example_now) = Inr [] \<and>
   read_active_bookings \<lparr>csv = None\<rparr> (steady example_now) =
     read_active_bookings \<lparr>csv = Some []\<rparr> (steady example_now)"
  using missing_file_no_bookings [of "\<lparr>csv = None\<rparr>" "steady example_now"]
  by (simp add: read_active_bookings_def)

text \<open>
  C4. For a row with status \<open>Occupied\<close> that the reader yields and whose dates are in
  range, let \<open>e\<close> be its start time plus its duration in minutes. When the clock reads
  \<open>e\<close> in the round of the row, the loop body leaves the dictionary as it is; when it
  reads any instant before \<open>e\<close>, the body enters the seat with end time \<open>e\<close>. In a
  file with one row per seat, all read and in range, \<open>read_active_bookings\<close>
  accordingly has no entry for the seat at \<open>e\<close> and has the entry at every earlier
  instant. The comparison is the strict \<open>now < e\<close>.
\<close>

theorem end_time_boundary_strict:
  assumes "status r = ''Occupied''" and "readable r" and "datetime_ok r"
    and "e = start_time r * 1000000 + duration r * 60000000"
  shows "active_row e r act = Inr act \<and>
     (\<forall>t<e. active_row t r act =
        Inr (AList.update (seat_id r) (e, name r, mobile r, entry_time r) act)) \<and>
     (rows_ok (records st) \<and> distinct (map seat_id (records st)) \<and>
      i < length (records st) \<and> records st ! i = r \<longrightarrow>
        (\<forall>clock. clock i = e \<longrightarrow>
           (\<exists>act'. read_active_bookings st clock = Inr act' \<and> map_of act' (seat_id r) = None)) \<and>
        (\<forall>clock. clock i < e \<longrightarrow>
           (\<exists>act'. read_active_bookings st clock = Inr act' \<and>
              map_of act' (seat_id r) = Some (e, name r, mobile r, entry_time r))))"
proof -
  have e: "e = end_of r"
    using assms(4) by (simp add: end_of_def)
  have a: "is_active t r \<longleftrightarrow> t < e" for t
    using assms(1) e by (simp add: is_active_def)
  have b: "booking_of r = (e, name r, mobile r, entry_time r)"
    using e by (simp add: booking_of_def)
  from assms(2) have k: "int_ok (seat_id r)"
    by (simp add: readable_def)
  have row: "active_row t r act =
      Inr (if t < e then AList.update (seat_id r) (e, name r, mobile r, entry_time r) act else act)"
    for t
    using active_row_ok[OF k, of t act] assms(3) a b by simp
  have 1: "active_row e r act = Inr act"
    using row[of e] by simp
  have 2: "\<forall>t<e. active_row t r act =
        Inr (AList.update (seat_id r) (e, name r, mobile r, entry_time r) act)"
    using row by simp
  have 3: "rows_ok (records st) \<and> distinct (map seat_id (records st)) \<and>
      i < length (records st) \<and> records st ! i = r \<longrightarrow>
        (\<forall>clock. clock i = e \<longrightarrow>
           (\<exists>act'. read_active_bookings st clock = Inr act' \<and> map_of act' (seat_id r) = None)) \<and>
        (\<forall>clock. clock i < e \<longrightarrow>
           (\<exists>act'. read_active_bookings st clock = Inr act' \<and>
              map_of act' (seat_id r) = Some (e, name r, mobile r, entry_time r)))"
  proof (intro impI, elim conjE)
    assume h: "rows_ok (records st)" "distinct (map seat_id (records st))"
      "i < length (records st)" "records st ! i = r"
    have l: "\<exists>act'. read_active_bookings st clock = Inr act' \<and>
        map_of act' (seat_id r) =
          (if clock i < e then Some (e, name r, mobile r, entry_time r) else None)" for clock
      using read_active_bookings_lookup[OF h(1,2,3), of clock, unfolded h(4) a b] .
    show "(\<forall>clock. clock i = e \<longrightarrow>
           (\<exists>act'. read_active_bookings st clock = Inr act' \<and> map_of act' (seat_id r) = None)) \<and>
        (\<forall>clock. clock i < e \<longrightarrow>
           (\<exists>act'. read_active_bookings st clock = Inr act' \<and>
              map_of act' (seat_id r) = Some (e, name r, mobile r, entry_time r)))"
    proof (intro conjI allI impI)
      fix clock :: "nat \<Rightarrow> int"
      assume "clock i = e"
      with l[of clock] show "\<exists>act'. read_active_bookings st clock = Inr act' \<and>
          map_of act' (seat_id r) = None" by simp
    next
      fix clock :: "nat \<Rightarrow> int"
      assume "clock i < e"
      with l[of clock] show "\<exists>act'. read_active_bookings st clock = Inr act' \<and>
          map_of act' (seat_id r) = Some (e, name r, mobile r, entry_time r)" by simp
    qed
  qed
  from 1 2 3 show ?thesis by blast
qed

theorem end_time_boundary_strict_witness:
  "status (booked 3 1) = ''Occupied'' \<and> readable (booked 3 1) \<and> datetime_ok (booked 3 1) \<and>
   (63900000060000000 :: int) = start_time (booked 3 1) * 1000000 + duration (booked 3 1) * 60000000 \<and>
   active_row 63900000060000000 (booked 3 1) [] = Inr [] \<and>
   active_row 63900000059999999 (booked 3 1) [] =
     Inr [(3, 63900000060000000, ''Asha'', ''9999999999'', ''10:00'')] \<and>
   (\<exists>act'. read_active_bookings \<lparr>csv = Some [booked 3 1]\<rparr> (steady 63900000060000000) = Inr act' \<and>
      map_of act' 3 = None) \<and>
   (\<exists>act'. read_active_bookings \<lparr>csv = Some [booked 3 1]\<rparr> (steady 63900000059999999) = Inr act' \<and>
      map_of act' 3 = Some (63900000060000000, ''Asha'', ''9999999999'', ''10:00''))"
proof -
  let ?st = "\<lparr>csv = Some [booked 3 1]\<rparr>"
  have s: "status (booked 3 1) = ''Occupied''"
    by (simp add: booked_def)
  have r: "readable (booked 3 1)"
    by (simp add: readable_def booked_def limit_defs)
  have d: "datetime_ok (booked 3 1)"
    by (simp add: datetime_ok_def end_of_def booked_def date_defs)
  have e: "(63900000060000000 :: int) =
      start_time (booked 3 1) * 1000000 + duration (booked 3 1) * 60000000"
    by (simp add: booked_def)
  have f: "seat_id (booked 3 1) = 3" "name (booked 3 1) = ''Asha''"
    "mobile (booked 3 1) = ''9999999999''" "entry_time (booked 3 1) = ''10:00''"
    by (simp_all add: booked_def)
  have st: "rows_ok (records ?st) \<and> distinct (map seat_id (records ?st)) \<and>
      0 < length (records ?st) \<and> records ?st ! 0 = booked 3 1"
    using s r d by (simp add: records_def rows_ok_def)
  note t = end_time_boundary_strict [OF s r d e, of "[]" ?st 0, unfolded f]
  from t have 1: "active_row 63900000060000000 (booked 3 1) [] = Inr []"
    by blast
  from t have 2: "active_row 63900000059999999 (booked 3 1) [] =
      Inr [(3, 63900000060000000, ''Asha'', ''9999999999'', ''10:00'')]"
    by simp
  from t st have 3: "\<exists>act'. read_active_bookings ?st (steady 63900000060000000) = Inr act' \<and>
      map_of act' 3 = None"
    by (simp add: steady_def)
  from t st have 4: "\<exists>act'. read_active_bookings ?st (steady 63900000059999999) = Inr act' \<and>
      map_of act' 3 = Some (63900000060000000, ''Asha'', ''9999999999'', ''10:00'')"
    by (simp add: steady_def)
  from s r d e 1 2 3 4 show ?thesis by blast
qed

text \<open>
  C5, as amended. On every file whose rows the reader yields (no field over 131072
  characters, no seat of more than 4300 digits) and whose \<open>Occupied\<close> rows have a start
  time and an end time, the start time plus the duration in minutes, that a \<^verbatim>\<open>datetime\<close>
  can hold, and whatever the clock reads, \<open>read_active_bookings\<close> returns a dictionary
  keyed by seat that holds exactly the active rows: every entry is the booking of a row
  of that seat with status \<open>Occupied\<close> and end time after the reading of its round,
  every such row has its seat in the dictionary, and with one row per seat the entry of a
  seat is the booking of its row when that row is active and is absent otherwise. The
  answer depends on the rows and the clock only, and the readers leave the file as it is:
  expired \<open>Occupied\<close> rows are left out of the answer and stay in the file unchanged.
\<close>

theorem read_active_bookings_exact:
  assumes "rows_ok (records st)"
  shows "\<exists>act. read_active_bookings st clock = Inr act \<and> distinct (map fst act) \<and>
     (\<forall>s b. map_of act s = Some b \<longrightarrow>
        (\<exists>i<length (records st). seat_id (records st ! i) = s \<and>
           status (records st ! i) = ''Occupied'' \<and>
           clock i < start_time (records st ! i) * 1000000 + duration (records st ! i) * 60000000 \<and>
           b = (start_time (records st ! i) * 1000000 + duration (records st ! i) * 60000000,
                name (records st ! i), mobile (records st ! i), entry_time (records st ! i)))) \<and>
     (\<forall>i<length (records st).
        status (records st ! i) = ''Occupied'' \<and>
        clock i < start_time (records st ! i) * 1000000 + duration (records st ! i) * 60000000 \<longrightarrow>
        seat_id (records st ! i) \<in> fst ` set act) \<and>
     (distinct (map seat_id (records st)) \<longrightarrow>
        (\<forall>i<length (records st).
           map_of act (seat_id (records st ! i)) =
             (if is_active (clock i) (records st ! i) then Some (booking_of (records st ! i))
              else None))) \<and>
     (\<forall>st'. records st' = records st \<longrightarrow> read_active_bookings st' clock = Inr act) \<and>
     (\<forall>a clk. disk a = st \<longrightarrow> disk (snd (refresh_ui clk a)) = st \<and>
        disk (snd (refresh_booking_list clock a)) = st)"
proof -
  let ?rs = "records st"
  from active_rows_total[OF assms] obtain act where act: "active_rows clock ?rs [] = Inr act"
    by blast
  have 1: "read_active_bookings st clock = Inr act"
    using act by (simp add: read_active_bookings_records)
  have 2: "distinct (map fst act)"
    using active_rows_distinct[OF act] by simp
  have 3: "\<forall>s b. map_of act s = Some b \<longrightarrow>
        (\<exists>i<length ?rs. seat_id (?rs ! i) = s \<and>
           status (?rs ! i) = ''Occupied'' \<and>
           clock i < start_time (?rs ! i) * 1000000 + duration (?rs ! i) * 60000000 \<and>
           b = (start_time (?rs ! i) * 1000000 + duration (?rs ! i) * 60000000,
                name (?rs ! i), mobile (?rs ! i), entry_time (?rs ! i)))"
    using active_rows_sound[OF act]
    by (fastforce simp: is_active_def booking_of_def end_of_def)
  have 4: "\<forall>i<length ?rs.
        status (?rs ! i) = ''Occupied'' \<and>
        clock i < start_time (?rs ! i) * 1000000 + duration (?rs ! i) * 60000000 \<longrightarrow>
        seat_id (?rs ! i) \<in> fst ` set act"
    using active_rows_complete[OF act] by (simp add: is_active_def end_of_def)
  have 5: "distinct (map seat_id ?rs) \<longrightarrow>
        (\<forall>i<length ?rs.
           map_of act (seat_id (?rs ! i)) =
             (if is_active (clock i) (?rs ! i) then Some (booking_of (?rs ! i)) else None))"
    using read_active_bookings_lookup[OF assms, of _ clock] 1 by fastforce
  have 6: "\<forall>st'. records st' = ?rs \<longrightarrow> read_active_bookings st' clock = Inr act"
    using act by (simp add: read_active_bookings_records)
  have 7: "\<forall>a clk. disk a = st \<longrightarrow> disk (snd (refresh_ui clk a)) = st \<and>
        disk (snd (refresh_booking_list clock a)) = st"
    by (simp add: readers_keep_disk)
  from 1 2 3 4 5 6 7 show ?thesis by blast
qed

theorem read_active_bookings_exact_witness:
  "rows_ok (records (disk five_app)) \<and> distinct (map seat_id (records (disk five_app))) \<and>
   (\<exists>act. read_active_bookings (disk five_app) (steady example_now) = Inr act \<and>
     distinct (map fst act) \<and>
     (\<forall>s b. map_of act s = Some b \<longrightarrow>
        (\<exists>i<length (records (disk five_app)). seat_id (records (disk five_app) ! i) = s \<and>
           status (records (disk five_app) ! i) = ''Occupied'' \<and>
           steady example_now i < start_time (records (disk five_app) ! i) * 1000000 +
             duration (records (disk five_app) ! i) * 60000000 \<and>
           b = (start_time (records (disk five_app) ! i) * 1000000 +
                  duration (records (disk five_app) ! i) * 60000000,
                name (records (disk five_app) ! i), mobile (records (disk five_app) ! i),
                entry_time (records (disk five_app) ! i)))) \<and>
     (\<forall>i<length (records (disk five_app)).
        map_of act (seat_id (records (disk five_app) ! i)) =
          (if is_active (steady example_now i) (records (disk five_app) ! i)
           then Some (booking_of (records (disk five_app) ! i)) else None)))"
proof -
  have h: "rows_ok (records (disk five_app))"
    by (simp add: five_app_def records_def rows_ok_five)
  from read_active_bookings_exact [OF h, of "steady example_now"] distinct_five
  obtain act where "read_active_bookings (disk five_app) (steady example_now) = Inr act"
    "distinct (map fst act)"
    "\<forall>s b. map_of act s = Some b \<longrightarrow>
        (\<exists>i<length (records (disk five_app)). seat_id (records (disk five_app) ! i) = s \<and>
           status (records (disk five_app) ! i) = ''Occupied'' \<and>
           steady example_now i < start_time (records (disk five_app) ! i) * 1000000 +
             duration (records (disk five_app) ! i) * 60000000 \<and>
           b = (start_time (records (disk five_app) ! i) * 1000000 +
                  duration (records (disk five_app) ! i) * 60000000,
                name (records (disk five_app) ! i), mobile (records (disk five_app) ! i),
                entry_time (records (disk five_app) ! i)))"
    "\<forall>i<length (records (disk five_app)).
        map_of act (seat_id (records (disk five_app) ! i)) =
          (if is_active (steady example_now i) (records (disk five_app) ! i)
           then Some (booking_of (records (disk five_app) ! i)) else None)"
    by blast
  with h distinct_five show ?thesis by blast
qed

text \<open>
  The claim C5 as written, for every file, fails on a row whose end time lies beyond
  \<^verbatim>\<open>datetime.max\<close>: seat 3 booked for 10000000000 minutes. The sum of start time and
  duration raises \<^verbatim>\<open>OverflowError\<close>, and the call returns no dictionary.
\<close>

theorem read_active_bookings_overflow:
  "read_active_bookings \<lparr>csv = Some [booked 3 10000000000]\<rparr> (steady example_now)
     = Inl OverflowError"
  by (simp add: store_defs booked_def date_defs limit_defs)

subsection \<open>Booking\<close>

text \<open>
  C6, as amended. Take a file whose rows the reader yields and whose \<open>Occupied\<close> rows
  of other seats have their dates in range, a clock from the year 1000 on, a seat of at
  most 4300 digits, a name, mobile and entry time of at most 131072 characters, and a
  duration above zero whose end time, the start time recorded plus the duration in
  minutes, does not pass \<^verbatim>\<open>datetime.max\<close>. When the write is made, \<open>add_booking\<close>
  completes, the recorded start time is the clock reading cut to the second, the instant
  of the booking is before the end time, and a read whose clock is before the end time in
  the round of the new row has the seat, with that end time and the name, mobile and
  entry time given.
\<close>

theorem add_booking_then_active:
  assumes "list_all readable (records st)"
    and "rows_ok (filter (\<lambda>r. seat_id r \<noteq> sid) (records st))"
    and "int_ok sid" and "length nm \<le> field_limit" and "length mob \<le> field_limit"
    and "length et \<le> field_limit"
    and "year_1000 * 1000000 \<le> now" and "0 < dur"
    and "(now div 1000000) * 1000000 + dur * 60000000 \<le> datetime_max"
  shows "\<exists>st'. add_booking st Written now sid nm mob dur et = (None, st') \<and>
     start_time (last (records st')) = (now div 1000000) \<and>
     now < (now div 1000000) * 1000000 + dur * 60000000 \<and>
     (\<forall>clock. clock (length (records st') - 1) < (now div 1000000) * 1000000 + dur * 60000000 \<longrightarrow>
        (\<exists>act. read_active_bookings st' clock = Inr act \<and>
          map_of act sid = Some ((now div 1000000) * 1000000 + dur * 60000000, nm, mob, et)))"
proof -
  note a = assms[folded strftime_def]
  let ?new = "\<lparr>seat_id = sid, name = nm, mobile = mob, duration = dur, entry_time = et,
            start_time = strftime now, status = ''Occupied''\<rparr>"
  let ?others = "filter (\<lambda>r. seat_id r \<noteq> sid) (records st)"
  let ?st' = "st\<lparr>csv := Some (?others @ [?new])\<rparr>"
  let ?E = "strftime now * 1000000 + dur * 60000000"
  have dt: "datetime_ok ?new"
    using a(7,8,9) by (rule new_row_ok)
  from datetime_ok_int_ok[OF dt] have idur: "int_ok dur" by simp
  have 1: "add_booking st Written now sid nm mob dur et = (None, ?st')"
    using a(3) idur by (simp add: add_booking_def keep_rows_ok[OF a(1)] write_csv_def)
  have recs: "records ?st' = ?others @ [?new]"
    by (simp add: records_csv)
  have c: "csv_ok ?new"
    using a(4,5,6) int_ok_len[OF a(3)] int_ok_len[OF idur]
    by (simp add: csv_ok_def field_limit_def)
  have E: "end_of ?new = ?E"
    by (simp add: end_of_def)
  have 4: "\<exists>act. read_active_bookings ?st' clock = Inr act \<and> map_of act sid = Some (?E, nm, mob, et)"
    if "clock (length (records ?st') - 1) < ?E" for clock
  proof -
    from active_rows_total[OF a(2)] obtain a1
      where a1: "active_rows clock ?others [] = Inr a1"
      by blast
    from that have t: "clock (length ?others) < ?E"
      by (simp add: recs)
    have "active_row (clock (length ?others)) ?new a1 = Inr (AList.update sid (?E, nm, mob, et) a1)"
      using active_row_ok[of ?new "clock (length ?others)" a1] a(3) dt t E
      by (simp add: is_active_def booking_of_def)
    then have "read_active_bookings ?st' clock = Inr (AList.update sid (?E, nm, mob, et) a1)"
      using a1 c by (simp add: read_active_bookings_records recs active_rows_append)
    then show ?thesis by (simp add: AList.update_conv')
  qed
  from 1 recs 4 now_before_end[OF a(8)] show ?thesis unfolding strftime_def by auto
qed

theorem add_booking_then_active_witness:
  "list_all readable (records (disk empty_app)) \<and>
   rows_ok (filter (\<lambda>r. seat_id r \<noteq> 3) (records (disk empty_app))) \<and>
   int_ok 3 \<and> length ''Asha'' \<le> field_limit \<and> length ''9999999999'' \<le> field_limit \<and>
   length ''10:00'' \<le> field_limit \<and>
   year_1000 * 1000000 \<le> example_start \<and> (0::int) < 1 \<and>
   (example_start div 1000000) * 1000000 + 1 * 60000000 \<le> datetime_max \<and>
   (\<exists>st'. add_booking (disk empty_app) Written example_start 3 ''Asha'' ''9999999999'' 1 ''10:00''
       = (None, st') \<and>
     start_time (last (records st')) = (example_start div 1000000) \<and>
     example_start < (example_start div 1000000) * 1000000 + 1 * 60000000 \<and>
     (\<forall>clock. clock (length (records st') - 1) < (example_start div 1000000) * 1000000 + 1 * 60000000 \<longrightarrow>
        (\<exists>act. read_active_bookings st' clock = Inr act \<and>
          map_of act 3 = Some ((example_start div 1000000) * 1000000 + 1 * 60000000,
            ''Asha'', ''9999999999'', ''10:00''))))"
proof -
  have h1: "list_all readable (records (disk empty_app))"
    by (simp add: empty_app_def records_def)
  have h2: "rows_ok (filter (\<lambda>r. seat_id r \<noteq> 3) (records (disk empty_app)))"
    by (simp add: empty_app_def records_def rows_ok_def)
  have h3: "int_ok 3"
    by (simp add: int_ok_small)
  have h4: "length ''Asha'' \<le> field_limit" and h5: "length ''9999999999'' \<le> field_limit"
    and h6: "length ''10:00'' \<le> field_limit"
    by (simp_all add: field_limit_def)
  have h7: "year_1000 * 1000000 \<le> example_start"
    by (simp add: example_start_def year_1000_def)
  have h8: "(0::int) < 1"
    by simp
  have h9: "(example_start div 1000000) * 1000000 + 1 * 60000000 \<le> datetime_max"
    by (simp add: example_start_def datetime_max_def)
  from add_booking_then_active [OF h1 h2 h3 h4 h5 h6 h7 h8 h9] h1 h2 h3 h4 h5 h6 h7 h8 h9
  show ?thesis by blast
qed

text \<open>
  The claim C6 as written, for every duration above zero, fails for a duration of
  10000000000 minutes: the booking is written, and the read that follows raises
  \<^verbatim>\<open>OverflowError\<close> instead of returning a dictionary with seat 3.
\<close>

theorem add_booking_overflow:
  "add_booking (disk empty_app) Written example_start 3 ''Asha'' ''9999999999'' 10000000000 ''10:00''
     = (None, \<lparr>csv = Some [booked 3 10000000000]\<rparr>) \<and>
   read_active_bookings \<lparr>csv = Some [booked 3 10000000000]\<rparr> (steady example_start)
     = Inl OverflowError"
  by (simp add: store_defs empty_app_def example_start_def booked_def date_defs limit_defs
        steady_def)

text \<open>
  C7, as amended. On a file whose rows the reader yields, \<open>add_booking\<close> for a seat,
  with numbers of at most 4300 digits and a name, mobile and entry time of at most 131072
  characters, leaves, when the write is made, exactly one row for that seat, the row just
  written, keeps the rows of the other seats, and keeps the seat numbers distinct when
  they were. A second call for the same seat leaves again exactly one row, with the
  values of the second call.
\<close>

theorem add_booking_one_record:
  assumes "list_all readable (records st)" and "int_ok sid" and "int_ok dur" and "int_ok dur2"
    and "length nm \<le> field_limit" and "length mob \<le> field_limit" and "length et \<le> field_limit"
  shows "\<exists>st'. add_booking st Written now sid nm mob dur et = (None, st') \<and>
     filter (\<lambda>r. seat_id r = sid) (records st') =
       [\<lparr>seat_id = sid, name = nm, mobile = mob, duration = dur, entry_time = et,
         start_time = (now div 1000000), status = ''Occupied''\<rparr>] \<and>
     filter (\<lambda>r. seat_id r \<noteq> sid) (records st') = filter (\<lambda>r. seat_id r \<noteq> sid) (records st) \<and>
     (distinct (map seat_id (records st)) \<longrightarrow> distinct (map seat_id (records st'))) \<and>
     (\<exists>st''. add_booking st' Written now2 sid nm2 mob2 dur2 et2 = (None, st'') \<and>
        filter (\<lambda>r. seat_id r = sid) (records st'') =
          [\<lparr>seat_id = sid, name = nm2, mobile = mob2, duration = dur2, entry_time = et2,
            start_time = (now2 div 1000000), status = ''Occupied''\<rparr>] \<and>
        filter (\<lambda>r. seat_id r \<noteq> sid) (records st'') = filter (\<lambda>r. seat_id r \<noteq> sid) (records st) \<and>
        (distinct (map seat_id (records st)) \<longrightarrow> distinct (map seat_id (records st''))))"
proof -
  let ?keep = "filter (\<lambda>r. seat_id r \<noteq> sid)"
  let ?row1 = "\<lparr>seat_id = sid, name = nm, mobile = mob, duration = dur, entry_time = et,
         start_time = strftime now, status = ''Occupied''\<rparr>"
  let ?row2 = "\<lparr>seat_id = sid, name = nm2, mobile = mob2, duration = dur2, entry_time = et2,
         start_time = strftime now2, status = ''Occupied''\<rparr>"
  let ?st1 = "st\<lparr>csv := Some (?keep (records st) @ [?row1])\<rparr>"
  let ?st2 = "?st1\<lparr>csv := Some (?keep (records ?st1) @ [?row2])\<rparr>"
  have f1: "filter (\<lambda>r. seat_id r = sid) (?keep rs) = []" for rs :: "row list"
    by (induction rs) auto
  have d: "distinct (map seat_id (?keep rs @ [x]))"
    if "distinct (map seat_id rs)" "seat_id x = sid" for rs :: "row list" and x
    using that by (auto simp: distinct_map_filter)
  have a1: "add_booking st Written now sid nm mob dur et = (None, ?st1)"
    using assms(2,3) by (simp add: add_booking_def keep_rows_ok[OF assms(1)] write_csv_def)
  have r1: "records ?st1 = ?keep (records st) @ [?row1]"
    by (simp add: records_csv)
  have "readable ?row1"
    using assms(2,5,6,7) int_ok_len[OF assms(2)] int_ok_len[OF assms(3)]
    by (simp add: readable_def csv_ok_def field_limit_def)
  with assms(1) have rd1: "list_all readable (records ?st1)"
    unfolding r1 by (simp add: list_all_iff)
  have a2: "add_booking ?st1 Written now2 sid nm2 mob2 dur2 et2 = (None, ?st2)"
    using assms(2,4) by (simp add: add_booking_def keep_rows_ok[OF rd1] write_csv_def)
  have r2: "records ?st2 = ?keep (records st) @ [?row2]"
    by (simp add: records_csv)
  have p1: "filter (\<lambda>r. seat_id r = sid) (records ?st1) = [?row1]"
    unfolding r1 by (simp add: f1)
  have p2: "filter (\<lambda>r. seat_id r = sid) (records ?st2) = [?row2]"
    unfolding r2 by (simp add: f1)
  have q1: "?keep (records ?st1) = ?keep (records st)"
    unfolding r1 by simp
  have q2: "?keep (records ?st2) = ?keep (records st)"
    unfolding r2 by simp
  have d1: "distinct (map seat_id (records st)) \<longrightarrow> distinct (map seat_id (records ?st1))"
    unfolding r1 using d[of "records st" ?row1] by simp
  have d2: "distinct (map seat_id (records st)) \<longrightarrow> distinct (map seat_id (records ?st2))"
    unfolding r2 using d[of "records st" ?row2] by simp
  from a1 a2 p1 p2 q1 q2 d1 d2 show ?thesis unfolding strftime_def by blast
qed

theorem add_booking_one_record_witness:
  "list_all readable (records (disk five_app)) \<and> int_ok 3 \<and> int_ok 30 \<and> int_ok 45 \<and>
   length ''Ravi'' \<le> field_limit \<and> length ''8888888888'' \<le> field_limit \<and>
   length ''11:00'' \<le> field_limit \<and> distinct (map seat_id (records (disk five_app))) \<and>
   (\<exists>st'. add_booking (disk five_app) Written example_start 3 ''Ravi'' ''8888888888'' 30 ''11:00''
       = (None, st') \<and>
     filter (\<lambda>r. seat_id r = 3) (records st') =
       [\<lparr>seat_id = 3, name = ''Ravi'', mobile = ''8888888888'', duration = 30,
         entry_time = ''11:00'', start_time = (example_start div 1000000), status = ''Occupied''\<rparr>] \<and>
     filter (\<lambda>r. seat_id r \<noteq> 3) (records st') =
       filter (\<lambda>r. seat_id r \<noteq> 3) (records (disk five_app)) \<and>
     distinct (map seat_id (records st')) \<and>
     (\<exists>st''. add_booking st' Written example_now 3 ''Mira'' ''7777777777'' 45 ''11:30'' = (None, st'') \<and>
        filter (\<lambda>r. seat_id r = 3) (records st'') =
          [\<lparr>seat_id = 3, name = ''Mira'', mobile = ''7777777777'', duration = 45,
            entry_time = ''11:30'', start_time = (example_now div 1000000), status = ''Occupied''\<rparr>] \<and>
        filter (\<lambda>r. seat_id r \<noteq> 3) (records st'') =
          filter (\<lambda>r. seat_id r \<noteq> 3) (records (disk five_app)) \<and>
        distinct (map seat_id (records st''))))"
proof -
  have h2: "int_ok 3" and h3: "int_ok 30" and h4: "int_ok 45"
    by (simp_all add: int_ok_small)
  have h5: "length ''Ravi'' \<le> field_limit" and h6: "length ''8888888888'' \<le> field_limit"
    and h7: "length ''11:00'' \<le> field_limit"
    by (simp_all add: field_limit_def)
  from add_booking_one_record [OF readable_five h2 h3 h4 h5 h6 h7,
      where now = example_start and ?now2.0 = example_now and ?nm2.0 = "''Mira''"
      and ?mob2.0 = "''7777777777''" and ?et2.0 = "''11:30''"]
    readable_five h2 h3 h4 h5 h6 h7 distinct_five
  show ?thesis by blast
qed

text \<open>
  The claim C7 as written, for every call, fails after a booking with a name of 131073
  characters: the booking is written, and the second call for the seat raises in its
  read, before it writes. The row of the first call stays; the values of the second call
  are not in the file.
\<close>

theorem add_booking_long_name:
  "add_booking (disk empty_app) Written example_start 3 long_name ''9999999999'' 60 ''10:00''
     = (None, \<lparr>csv = Some [(booked 3 60)\<lparr>name := long_name\<rparr>]\<rparr>) \<and>
   add_booking \<lparr>csv = Some [(booked 3 60)\<lparr>name := long_name\<rparr>]\<rparr> Written example_now
       3 ''Mira'' ''7777777777'' 45 ''11:30''
     = (Some CsvError, \<lparr>csv = Some [(booked 3 60)\<lparr>name := long_name\<rparr>]\<rparr>)"
  by (simp add: store_defs empty_app_def example_start_def booked_def date_defs limit_defs
        length_long_name)

text \<open>
  C2, as amended. When the name, the mobile or the entry time is empty once stripped,
  or the duration is not a text that \<^verbatim>\<open>int\<close> accepts, \<open>confirm\<close> shows the error box at
  once and changes nothing else: the file and the dictionary are as before.
\<close>

theorem confirm_rejects_invalid:
  assumes "py_strip name_e = [] \<or> py_strip mobile_e = [] \<or> py_strip entry_e = [] \<or>
           py_int (py_strip duration_e) = None"
  shows "confirm sid name_e mobile_e duration_e entry_e w now clk a =
           (None, a\<lparr>dialogs := dialogs a @ [InvalidInput]\<rparr>)"
proof -
  from assms have "parse_form name_e mobile_e duration_e entry_e = None"
    by (auto simp: parse_form_def Let_def split: option.splits)
  then show ?thesis by (simp add: confirm_def messagebox_def)
qed

theorem confirm_rejects_invalid_witness:
  "(py_strip [CHR 0xA0, CHR '' ''] = [] \<or> py_strip ''9999999999'' = [] \<or>
      py_strip ''10:00'' = [] \<or> py_int (py_strip ''an hour'') = None) \<and>
   py_strip [CHR 0xA0, CHR '' ''] = [] \<and> py_int (py_strip ''an hour'') = None \<and>
   confirm 3 [CHR 0xA0, CHR '' ''] ''9999999999'' ''an hour'' ''10:00'' Written example_start
       (steady_all example_start) five_app =
     (None, five_app\<lparr>dialogs := dialogs five_app @ [InvalidInput]\<rparr>)"
proof -
  have n: "py_strip [CHR 0xA0, CHR '' ''] = []"
    by (simp add: parse_defs)
  have d: "py_int (py_strip ''an hour'') = None"
    by (simp add: parse_defs)
  from n have h: "py_strip [CHR 0xA0, CHR '' ''] = [] \<or> py_strip ''9999999999'' = [] \<or>
      py_strip ''10:00'' = [] \<or> py_int (py_strip ''an hour'') = None"
    by blast
  from h n d confirm_rejects_invalid [OF h, of 3 Written example_start "steady_all example_start" five_app]
  show ?thesis by blast
qed

text \<open>
  The claim C2 as written also promises a rejection for a duration that is not above
  zero. \<open>confirm\<close> has no such check: with the duration \<^verbatim>\<open>0\<close> or \<^verbatim>\<open>-5\<close> the booking
  is written to the file and the box \<^verbatim>\<open>Booked\<close> is shown.
\<close>

theorem confirm_accepts_zero_duration:
  "confirm 3 ''Asha'' ''9999999999'' ''0'' ''10:00'' Written example_start
       (steady_all example_start) empty_app =
     (None, \<lparr>disk = \<lparr>csv = Some [booked 3 0]\<rparr>, active = [], dialogs = [Booked 3 0]\<rparr>) \<and>
   confirm 3 ''Asha'' ''9999999999'' ''-5'' ''10:00'' Written example_start
       (steady_all example_start) empty_app =
     (None, \<lparr>disk = \<lparr>csv = Some [booked 3 (- 5)]\<rparr>, active = [], dialogs = [Booked 3 (- 5)]\<rparr>)"
  by (simp add: confirm_def parse_defs empty_app_def example_start_def booked_def app_defs
        store_defs date_defs limit_defs)

subsection \<open>Setting the status\<close>

text \<open>
  C9. Whatever \<open>update_booking_status\<close> returns, when its write is made or refused:
  the number and order of the rows are kept; in every row the seat, name, mobile,
  duration, entry time and start time are as before; the rows of other seats are
  unchanged altogether; and when the seat has no row, the rows are unchanged. When the
  call returns without an exception, the status is the one given in the rows of the seat
  and as before in the others; when it raises, the file is as it was. It returns without
  an exception when the reader yields every row and the write is made.
\<close>

theorem update_booking_status_frame:
  assumes "w = Written \<or> w = Refused"
  shows "\<exists>e st'. update_booking_status st w sid s = (e, st') \<and>
     length (records st') = length (records st) \<and>
     (\<forall>i<length (records st).
        seat_id (records st' ! i) = seat_id (records st ! i) \<and>
        name (records st' ! i) = name (records st ! i) \<and>
        mobile (records st' ! i) = mobile (records st ! i) \<and>
        duration (records st' ! i) = duration (records st ! i) \<and>
        entry_time (records st' ! i) = entry_time (records st ! i) \<and>
        start_time (records st' ! i) = start_time (records st ! i) \<and>
        (seat_id (records st ! i) \<noteq> sid \<longrightarrow> records st' ! i = records st ! i)) \<and>
     (sid \<notin> seat_id ` set (records st) \<longrightarrow> records st' = records st) \<and>
     (e = None \<longrightarrow>
        (\<forall>i<length (records st).
           status (records st' ! i) =
             (if seat_id (records st ! i) = sid then s else status (records st ! i)))) \<and>
     (e \<noteq> None \<longrightarrow> st' = st) \<and>
     (list_all readable (records st) \<and> w = Written \<longrightarrow> e = None)"
proof (cases "set_rows sid s (records st)")
  case (Inl err)
  then have u: "update_booking_status st w sid s = (Some err, st)"
    by (simp add: update_booking_status_def)
  from Inl have "\<not> list_all readable (records st)"
    using set_rows_ok[of "records st" sid s] by auto
  with u show ?thesis by simp
next
  case (Inr rows)
  let ?f = "\<lambda>r. if seat_id r = sid then r\<lparr>status := s\<rparr> else r"
  let ?st' = "st\<lparr>csv := Some (map ?f (records st))\<rparr>"
  from set_rows_Inr[OF Inr] Inr
  have sr: "set_rows sid s (records st) = Inr (map ?f (records st))"
    by simp
  from assms show ?thesis
  proof
    assume w: "w = Written"
    have u: "update_booking_status st w sid s = (None, ?st')"
      using sr w by (simp add: update_booking_status_def write_csv_def)
    have r: "records ?st' = map ?f (records st)"
      by (simp add: records_csv)
    have 1: "length (records ?st') = length (records st)"
      unfolding r by simp
    have 2: "\<forall>i<length (records st).
        seat_id (records ?st' ! i) = seat_id (records st ! i) \<and>
        name (records ?st' ! i) = name (records st ! i) \<and>
        mobile (records ?st' ! i) = mobile (records st ! i) \<and>
        duration (records ?st' ! i) = duration (records st ! i) \<and>
        entry_time (records ?st' ! i) = entry_time (records st ! i) \<and>
        start_time (records ?st' ! i) = start_time (records st ! i) \<and>
        (seat_id (records st ! i) \<noteq> sid \<longrightarrow> records ?st' ! i = records st ! i)"
      unfolding r by simp
    have 3: "sid \<notin> seat_id ` set (records st) \<longrightarrow> records ?st' = records st"
      unfolding r using set_rows_absent[OF sr] by blast
    have 4: "\<forall>i<length (records st).
           status (records ?st' ! i) =
             (if seat_id (records st ! i) = sid then s else status (records st ! i))"
      unfolding r by simp
    from u 1 2 3 4 show ?thesis by simp
  next
    assume w: "w = Refused"
    have u: "update_booking_status st w sid s = (Some OSError, st)"
      using sr w by (simp add: update_booking_status_def write_csv_def)
    with w show ?thesis by simp
  qed
qed

theorem update_booking_status_frame_witness:
  "(Written = Written \<or> Written = Refused) \<and> list_all readable (records (disk five_app)) \<and>
   9 \<notin> seat_id ` set (records (disk five_app)) \<and>
   (\<exists>st'. update_booking_status (disk five_app) Written 9 ''Free'' = (None, st') \<and>
      records st' = records (disk five_app)) \<and>
   (\<exists>st'. update_booking_status (disk five_app) Written 3 ''Free'' = (None, st') \<and>
      length (records st') = 5 \<and>
      records st' ! 0 = booked 1 60 \<and>
      seat_id (records st' ! 2) = 3 \<and> name (records st' ! 2) = ''Asha'' \<and>
      duration (records st' ! 2) = 60 \<and> start_time (records st' ! 2) = 63900000000 \<and>
      status (records st' ! 2) = ''Free'')"
proof -
  let ?rs = "[booked 1 60, booked 2 60, booked 3 60, booked 4 60, booked 5 60]"
  have h: "Written = Written \<or> Written = Refused"
    by simp
  have r: "records (disk five_app) = ?rs"
    by (simp add: five_app_def five_rows_def records_def)
  have n: "9 \<notin> seat_id ` set (records (disk five_app))"
    unfolding r by (simp add: booked_def)
  from update_booking_status_frame [OF h, of "disk five_app" 9 "''Free''"] n readable_five
  have a: "\<exists>st'. update_booking_status (disk five_app) Written 9 ''Free'' = (None, st') \<and>
      records st' = records (disk five_app)"
    by blast
  from update_booking_status_frame [OF h, of "disk five_app" 3 "''Free''"] readable_five
  obtain st' where st': "update_booking_status (disk five_app) Written 3 ''Free'' = (None, st')"
    and len: "length (records st') = length ?rs"
    and rows: "\<forall>i<length ?rs.
        seat_id (records st' ! i) = seat_id (?rs ! i) \<and>
        name (records st' ! i) = name (?rs ! i) \<and>
        mobile (records st' ! i) = mobile (?rs ! i) \<and>
        duration (records st' ! i) = duration (?rs ! i) \<and>
        entry_time (records st' ! i) = entry_time (?rs ! i) \<and>
        start_time (records st' ! i) = start_time (?rs ! i) \<and>
        (seat_id (?rs ! i) \<noteq> 3 \<longrightarrow> records st' ! i = ?rs ! i)"
    and stat: "\<forall>i<length ?rs.
        status (records st' ! i) = (if seat_id (?rs ! i) = 3 then ''Free'' else status (?rs ! i))"
    unfolding r by blast
  from rows have i0: "records st' ! 0 = booked 1 60"
    and i2: "seat_id (records st' ! 2) = 3 \<and> name (records st' ! 2) = ''Asha'' \<and>
      duration (records st' ! 2) = 60 \<and> start_time (records st' ! 2) = 63900000000"
    by (simp_all add: booked_def)
  from stat have s2: "status (records st' ! 2) = ''Free''"
    by (simp add: booked_def)
  from len have l: "length (records st') = 5"
    by simp
  from h readable_five n a st' l i0 i2 s2 show ?thesis by blast
qed

subsection \<open>Resetting all seats\<close>

text \<open>
  C1. The claim asks that resetting all seats leaves no row in the file and no active
  booking. \<open>reset_all\<close> calls \<open>ensure_csv\<close>, which writes only when the file is missing:
  on the file with five active bookings, confirmed, it returns with the five rows still
  in the file, the five seats read back into the dictionary, and the box that says all
  seats were reset.
\<close>

theorem reset_all_keeps_bookings:
  "reset_all True Written (steady_all example_now) five_app
     = (None, five_app\<lparr>dialogs := [ResetDone]\<rparr>) \<and>
   records (disk five_app) = five_rows \<and> length five_rows = 5 \<and>
   read_active_bookings (disk five_app) (steady example_now) = Inr (active five_app) \<and>
   map fst (active five_app) = [1, 2, 3, 4, 5]"
  by (simp add: reset_all_def five_app_def five_rows_def booked_def example_now_def app_defs
        store_defs date_defs limit_defs)

text \<open>
  C8. Setting the status of a seat twice gives the file that setting it once gives
  (\<open>update_booking_status_twice\<close>). Resetting all seats twice also gives the file that
  resetting once gives, but that file is not the empty one the claim asks for: on the
  five bookings it still holds the five rows.
\<close>

theorem reset_all_twice_not_empty:
  "disk (snd (reset_all True Written (steady_all example_now)
       (snd (reset_all True Written (steady_all example_now) five_app))))
     = disk (snd (reset_all True Written (steady_all example_now) five_app)) \<and>
   records (disk (snd (reset_all True Written (steady_all example_now) five_app))) = five_rows \<and>
   five_rows \<noteq> []"
  by (simp add: reset_all_def five_app_def five_rows_def booked_def example_now_def app_defs
        store_defs date_defs limit_defs)

subsection \<open>The sweeper\<close>

text \<open>
  C3, as amended. When, in a round of the sweeper, the write for a seat of its
  dictionary whose end time has come is not made, the round raises: the exception leaves
  the loop and ends the thread, whatever rounds would follow, so that the seat is not
  tried again.
\<close>

theorem sweep_write_failure_ends_thread:
  assumes "i < length (active a)" and "fst (snd (active a ! i)) \<le> now"
    and "outs i \<noteq> Written"
  shows "\<exists>e a'. sweep now outs a = (Some e, a') \<and>
     (\<forall>rounds. auto_reset_thread ((now, outs) # rounds) a = (Some e, a'))"
proof -
  from sweep_items_fails[of i "active a" now outs a, OF assms]
  obtain e where "fst (sweep now outs a) = Some e"
    by (auto simp: sweep_def)
  then have "sweep now outs a = (Some e, snd (sweep now outs a))"
    by (metis prod.collapse)
  then show ?thesis by (metis auto_reset_thread.simps(2) then_app_simps(2))
qed

theorem sweep_write_failure_ends_thread_witness:
  "(0::nat) < length (active minute_app) \<and>
   fst (snd (active minute_app ! 0)) \<le> 63900000061000000 \<and>
   refusing 0 \<noteq> Written \<and>
   (\<exists>e a'. sweep 63900000061000000 refusing minute_app = (Some e, a') \<and>
     (\<forall>rounds. auto_reset_thread ((63900000061000000, refusing) # rounds) minute_app
        = (Some e, a')))"
proof -
  have h1: "(0::nat) < length (active minute_app)"
    by (simp add: minute_app_def)
  have h2: "fst (snd (active minute_app ! 0)) \<le> 63900000061000000"
    by (simp add: minute_app_def)
  have h3: "refusing 0 \<noteq> Written"
    by (simp add: refusing_def)
  from sweep_write_failure_ends_thread [of 0 minute_app 63900000061000000 refusing, OF h1 h2 h3]
    h1 h2 h3
  show ?thesis by blast
qed

text \<open>
  The claim C3 as written fails on seat 3, booked for one minute: of the two rounds, one
  and two seconds after the end time, the first has its write refused and raises, and the
  second, whose write would be made, is never run; and a read at the first round has no
  entry for the seat, which the dictionary read thirty seconds after the booking had.
\<close>

theorem sweeper_dies_on_write_failure:
  "auto_reset_thread [(63900000061000000, refusing), (63900000062000000, writing)] minute_app
     = (Some OSError, minute_app) \<and>
   read_active_bookings (disk minute_app) (steady 63900000030000000) = Inr (active minute_app) \<and>
   read_active_bookings (disk minute_app) (steady 63900000061000000) = Inr []"
  by (simp add: minute_app_def sweep_def booked_def app_defs store_defs date_defs limit_defs)

end
